theory Spec2Isabelle
  imports Complex_Main "HOL-Library.Multiset"
begin

section \<open>Shared vocabulary\<close>

text \<open>
  Python exceptions that escape a modelled function are values of \<open>py_error\<close>.
  Exceptions that the source catches itself (every \<^verbatim>\<open>except Exception\<close>) are
  branches of the model and never appear as an error value.
\<close>

datatype py_error = TypeError | ZeroDivisionError

text \<open>
  A naive \<^verbatim>\<open>datetime\<close> is the number of microseconds since an arbitrary epoch,
  a \<^verbatim>\<open>timedelta\<close> a number of microseconds.
\<close>

definition one_day :: int where
  "one_day = 86400 * 1000000"

section \<open>ai_news_agent.py: the data\<close>

datatype origin = Rss | Reddit

text \<open>
  The article dictionary. The first seven keys are set when the article is collected
  (\<open>score\<close> only by the Reddit collector); the last five are the keys that
  \<^verbatim>\<open>analyze_articles\<close> adds with \<^verbatim>\<open>dict.update\<close>. A key that is absent from
  the dictionary is \<open>None\<close>. \<open>published\<close> is the datetime whose
  \<^verbatim>\<open>isoformat()\<close> string the code stores.
\<close>

record article =
  title :: string
  url :: string
  source :: string
  description :: string
  published :: int
  kind :: origin
  score :: "int option"
  relevance_score :: "real option"
  category :: "string option"
  key_insights :: "string list option"
  importance_level :: "string option"
  ai_summary :: "string option"

text \<open>
  One entry of a parsed feed, as \<^verbatim>\<open>process_rss_feed\<close> reads it. The two
  dates are \<open>None\<close> when the attribute is missing or falsy, the other fields
  when the attribute is missing. \<open>entry_summary\<close> and
  \<open>entry_description\<close> hold the text after BeautifulSoup's \<^verbatim>\<open>get_text\<close> and the
  whitespace normalisation of line 118 (library calls that are not modelled).
  \<open>Malformed\<close> is an entry on which the body of the per-entry \<^verbatim>\<open>try\<close> raises.
\<close>

record entry =
  published_parsed :: "int option"
  updated_parsed :: "int option"
  entry_title :: "string option"
  entry_link :: "string option"
  entry_summary :: "string option"
  entry_description :: "string option"

datatype feed_entry = Malformed | Entry entry

text \<open>
  What one feed gives: \<open>FetchFailed\<close> when \<^verbatim>\<open>fetch_url\<close> returns \<^verbatim>\<open>None\<close> or
  an empty body (it catches every network error and timeout itself), \<open>FeedRaises\<close>
  when the body of the outer \<^verbatim>\<open>try\<close> raises (the parser), and the parsed entries
  otherwise.
\<close>

datatype feed_result = FetchFailed | FeedRaises | Feed "feed_entry list"

text \<open>One task of \<^verbatim>\<open>collect_rss_feeds\<close>: the source's display name, the clock
  when its feed is processed, and what the network returned.\<close>

record rss_fetch =
  fetch_source :: string
  fetch_now :: int
  fetch_result :: feed_result

record post_data =
  created_utc :: "int option"
  post_score :: "int option"
  post_title :: "string option"
  permalink :: "string option"
  selftext :: "string option"

datatype child = NoData | Post post_data

datatype reddit_result = RedditFetchFailed | RedditBadJson | Listing "child list"

record reddit_fetch =
  subreddit :: string
  reddit_now :: int
  reddit_result :: reddit_result

text \<open>The agent object: the only attribute the pipeline reads and writes.\<close>

record agent =
  collected_articles :: "article list"

section \<open>ai_news_agent.py: collection\<close>

definition truncate_description :: "string \<Rightarrow> string" where
  "truncate_description d = (if length d > 500 then take 500 d @ ''...'' else d)"

text \<open>The body of the loop over \<^verbatim>\<open>feed.entries[:10]\<close> (lines 94 to 135):
  \<open>None\<close> when the entry is skipped by a \<^verbatim>\<open>continue\<close>.\<close>

fun process_entry :: "string \<Rightarrow> int \<Rightarrow> feed_entry \<Rightarrow> article option" where
  "process_entry source_name now Malformed = None"
| "process_entry source_name now (Entry e) =
     (let pub_date = (case published_parsed e of Some d \<Rightarrow> Some d | None \<Rightarrow> updated_parsed e);
          cutoff_time = now - one_day
      in if (case pub_date of Some d \<Rightarrow> d < cutoff_time | None \<Rightarrow> False) then None
         else Some \<lparr>
           title = (case entry_title e of Some t \<Rightarrow> t | None \<Rightarrow> ''No title''),
           url = (case entry_link e of Some l \<Rightarrow> l | None \<Rightarrow> ''''),
           source = source_name,
           description = truncate_description
             (case entry_summary e of Some s \<Rightarrow> s
              | None \<Rightarrow> (case entry_description e of Some s \<Rightarrow> s | None \<Rightarrow> '''')),
           published = (case pub_date of Some d \<Rightarrow> d | None \<Rightarrow> now),
           kind = Rss,
           score = None,
           relevance_score = None,
           category = None,
           key_insights = None,
           importance_level = None,
           ai_summary = None \<rparr>)"

text \<open>\<^verbatim>\<open>process_rss_feed\<close>: the list it returns and the agent after it. The
  \<^verbatim>\<open>extend\<close> of line 137 is the last statement of the \<^verbatim>\<open>try\<close>, so a feed that
  fails adds nothing.\<close>

fun process_rss_feed :: "string \<Rightarrow> int \<Rightarrow> feed_result \<Rightarrow> agent \<Rightarrow> article list \<times> agent" where
  "process_rss_feed source_name now FetchFailed s = ([], s)"
| "process_rss_feed source_name now FeedRaises s = ([], s)"
| "process_rss_feed source_name now (Feed entries) s =
     (let articles = List.map_filter (process_entry source_name now) (take 10 entries)
      in (articles, s\<lparr>collected_articles := collected_articles s @ articles\<rparr>))"

text \<open>
  \<^verbatim>\<open>collect_rss_feeds\<close> gathers one task per source. A task suspends only inside
  \<^verbatim>\<open>fetch_url\<close>; from there to its \<^verbatim>\<open>extend\<close> it runs without interruption, so
  the agent after the gather is the agent after the tasks run one by one in the order
  in which their fetches complete. The list given here is in that order.
\<close>

definition collect_rss_feeds :: "rss_fetch list \<Rightarrow> agent \<Rightarrow> agent" where
  "collect_rss_feeds tasks s =
     fold (\<lambda>t s'. snd (process_rss_feed (fetch_source t) (fetch_now t) (fetch_result t) s')) tasks s"

definition reddit_article :: "string \<Rightarrow> post_data \<Rightarrow> int \<Rightarrow> string \<Rightarrow> string \<Rightarrow> article" where
  "reddit_article sub p post_time ti pl = \<lparr>
     title = ti,
     url = ''https://reddit.com'' @ pl,
     source = ''r/'' @ sub,
     description = (case selftext p of None \<Rightarrow> ''''
                    | Some t \<Rightarrow> if t = '''' then '''' else take 500 t @ ''...''),
     published = post_time,
     kind = Reddit,
     score = Some (case post_score p of Some n \<Rightarrow> n | None \<Rightarrow> 0),
     relevance_score = None,
     category = None,
     key_insights = None,
     importance_level = None,
     ai_summary = None \<rparr>"

text \<open>The loop over the children of one listing (lines 157 to 179). Each article is
  appended as soon as it is built; a missing key raises \<^verbatim>\<open>KeyError\<close>, which ends
  this subreddit (the \<^verbatim>\<open>except\<close> of line 183) and keeps what was appended.\<close>

fun reddit_posts :: "string \<Rightarrow> int \<Rightarrow> child list \<Rightarrow> article list \<Rightarrow> article list" where
  "reddit_posts sub now [] acc = acc"
| "reddit_posts sub now (NoData # ps) acc = acc"
| "reddit_posts sub now (Post p # ps) acc =
     (case created_utc p of
        None \<Rightarrow> acc
      | Some post_time \<Rightarrow>
          if post_time < now - one_day then reddit_posts sub now ps acc
          else if (case post_score p of Some n \<Rightarrow> n | None \<Rightarrow> 0) < 50
               then reddit_posts sub now ps acc
          else (case post_title p of
                  None \<Rightarrow> acc
                | Some ti \<Rightarrow>
                    (case permalink p of
                       None \<Rightarrow> acc
                     | Some pl \<Rightarrow>
                         reddit_posts sub now ps (acc @ [reddit_article sub p post_time ti pl]))))"

text \<open>The children on which the body of the loop raises \<^verbatim>\<open>KeyError\<close>: no
  \<^verbatim>\<open>data\<close> (line 158), no \<^verbatim>\<open>created_utc\<close> (line 161), or, for a post that
  passes the two tests, no \<^verbatim>\<open>title\<close> or no \<^verbatim>\<open>permalink\<close> (lines 170 and
  171).\<close>

fun child_raises :: "int \<Rightarrow> child \<Rightarrow> bool" where
  "child_raises now NoData = True"
| "child_raises now (Post p) =
     (case created_utc p of
        None \<Rightarrow> True
      | Some post_time \<Rightarrow>
          \<not> post_time < now - one_day \<and>
          \<not> (case post_score p of Some n \<Rightarrow> n | None \<Rightarrow> 0) < 50 \<and>
          (post_title p = None \<or> permalink p = None))"

fun collect_subreddit :: "reddit_fetch \<Rightarrow> agent \<Rightarrow> agent" where
  "collect_subreddit f s =
     (case reddit_result f of
        RedditFetchFailed \<Rightarrow> s
      | RedditBadJson \<Rightarrow> s
      | Listing children \<Rightarrow>
          s\<lparr>collected_articles :=
              reddit_posts (subreddit f) (reddit_now f) children (collected_articles s)\<rparr>)"

definition collect_reddit_posts :: "reddit_fetch list \<Rightarrow> agent \<Rightarrow> agent" where
  "collect_reddit_posts fetches s = fold collect_subreddit fetches s"

text \<open>Step 1 of \<^verbatim>\<open>run_daily_digest\<close>: feeds first, then Reddit.\<close>

definition collect :: "rss_fetch list \<Rightarrow> reddit_fetch list \<Rightarrow> agent \<Rightarrow> agent" where
  "collect tasks fetches s = collect_reddit_posts fetches (collect_rss_feeds tasks s)"

text \<open>The deduplication key of the specification.\<close>

definition dedup_key :: "article \<Rightarrow> string \<times> string" where
  "dedup_key a = (source a, url a)"

section \<open>ai_news_agent.py: analysis\<close>

text \<open>
  One element of the \<^verbatim>\<open>articles\<close> array of the scoring service's answer, typed as
  the prompt asks for it: each key may be missing, a score is a number, a category a
  string. The element's \<^verbatim>\<open>index\<close> key is never read by the code.
\<close>

record analysis_item =
  item_relevance_score :: "real option"
  item_category :: "string option"
  item_key_insights :: "string list option"
  item_importance_level :: "string option"
  item_summary :: "string option"

text \<open>
  The generated text after \<^verbatim>\<open>json.loads\<close> (line 250): \<open>NotJson\<close> when it raises
  \<^verbatim>\<open>JSONDecodeError\<close>; \<open>NotObject\<close> when it parses to a value without
  \<^verbatim>\<open>get\<close> (line 251 raises, line 261 catches); otherwise the object's
  \<^verbatim>\<open>articles\<close> key, \<open>None\<close> when the key is absent.
\<close>

datatype generated = NotJson | NotObject | Analysis "analysis_item list option"

text \<open>
  The body of a response with status 200: \<open>BodyNotJson\<close> when
  \<^verbatim>\<open>response.json()\<close> raises, \<open>NoCandidates\<close> when the key \<^verbatim>\<open>candidates\<close> is
  absent or its list empty (the test of line 242 fails), \<open>BadShape\<close> when the path of
  line 243 raises, and the generated text otherwise.
\<close>

datatype response_body = BodyNotJson | NoCandidates | BadShape | Text generated

text \<open>\<^verbatim>\<open>requests.post\<close>: it raises (connection error, timeout), or returns a
  response with a status code and a body.\<close>

datatype post_outcome = PostRaises | Response int response_body

text \<open>
  \<^verbatim>\<open>analyze_with_gemini\<close>, from the \<^verbatim>\<open>requests.post\<close> of line 236 on (the
  prompt is text for the service and decides no branch). The result \<open>None\<close> is
  Python's \<^verbatim>\<open>None\<close>: with status 200 and no candidates the function reaches its
  end without a \<^verbatim>\<open>return\<close>.
\<close>

fun analyze_with_gemini :: "post_outcome \<Rightarrow> analysis_item list option" where
  "analyze_with_gemini PostRaises = Some []"
| "analyze_with_gemini (Response status_code body) =
     (if status_code = 200 then
        (case body of
           BodyNotJson \<Rightarrow> Some []
         | NoCandidates \<Rightarrow> None
         | BadShape \<Rightarrow> Some []
         | Text NotJson \<Rightarrow> Some []
         | Text NotObject \<Rightarrow> Some []
         | Text (Analysis None) \<Rightarrow> Some []
         | Text (Analysis (Some items)) \<Rightarrow> Some items)
      else Some [])"

text \<open>The three failures of the scoring call that the specification names: the call
  raises, the status is not 200, or a body (the response's, or the generated text) is
  not valid JSON.\<close>

fun scoring_call_failed :: "post_outcome \<Rightarrow> bool" where
  "scoring_call_failed PostRaises = True"
| "scoring_call_failed (Response status_code body) =
     (status_code \<noteq> 200 \<or> body = BodyNotJson \<or> body = Text NotJson)"

definition batch_size :: nat where
  "batch_size = 5"

text \<open>The \<^verbatim>\<open>update\<close> of lines 287 to 293.\<close>

definition update_article :: "analysis_item \<Rightarrow> article \<Rightarrow> article" where
  "update_article it a = a\<lparr>
     relevance_score := Some (case item_relevance_score it of Some v \<Rightarrow> v | None \<Rightarrow> 50),
     category := Some (case item_category it of Some c \<Rightarrow> c | None \<Rightarrow> ''Other''),
     key_insights := Some (case item_key_insights it of Some k \<Rightarrow> k | None \<Rightarrow> []),
     importance_level := Some (case item_importance_level it of Some l \<Rightarrow> l | None \<Rightarrow> ''medium''),
     ai_summary := Some (case item_summary it of Some t \<Rightarrow> t | None \<Rightarrow> '''') \<rparr>"

text \<open>The loop of lines 282 to 293 over \<^verbatim>\<open>enumerate(batch_analysis)\<close>, from
  position \<open>j\<close> on: \<open>i\<close> is the batch's first index and \<open>len_batch\<close> its length.\<close>

fun match_analysis :: "nat \<Rightarrow> nat \<Rightarrow> nat \<Rightarrow> analysis_item list \<Rightarrow> article list \<Rightarrow> article list" where
  "match_analysis i len_batch j [] arts = arts"
| "match_analysis i len_batch j (it # its) arts =
     match_analysis i len_batch (Suc j) its
       (if j < len_batch then
          (let article_index = i + j
           in if article_index < length arts
              then arts[article_index := update_article it (arts ! article_index)]
              else arts)
        else arts)"

text \<open>\<^verbatim>\<open>range(0, n, batch_size)\<close>.\<close>

definition batch_starts :: "nat \<Rightarrow> nat list" where
  "batch_starts n = map (\<lambda>k. k * batch_size) [0..<(n + batch_size - 1) div batch_size]"

text \<open>
  The loop of lines 277 to 299 over the batch starts. \<open>gemini k\<close> is the outcome of
  the \<open>k\<close>-th call of the scoring service (one call per batch, in order).
  \<^verbatim>\<open>enumerate(None)\<close> raises \<^verbatim>\<open>TypeError\<close>, which nothing in
  \<^verbatim>\<open>analyze_articles\<close> catches.
\<close>

fun analyze_batches :: "(nat \<Rightarrow> post_outcome) \<Rightarrow> nat list \<Rightarrow> article list \<Rightarrow> py_error + article list" where
  "analyze_batches gemini [] arts = Inr arts"
| "analyze_batches gemini (i # starts) arts =
     (let batch = take batch_size (drop i arts)
      in case analyze_with_gemini (gemini (i div batch_size)) of
           None \<Rightarrow> Inl TypeError
         | Some batch_analysis \<Rightarrow>
             analyze_batches gemini starts (match_analysis i (length batch) 0 batch_analysis arts))"

text \<open>\<^verbatim>\<open>x.get('relevance_score', 0)\<close> and \<^verbatim>\<open>x.get('category', 'Other')\<close>, as
  every reader of an article has them.\<close>

definition get_relevance_score :: "article \<Rightarrow> real" where
  "get_relevance_score a = (case relevance_score a of Some v \<Rightarrow> v | None \<Rightarrow> 0)"

definition get_category :: "article \<Rightarrow> string" where
  "get_category a = (case category a of Some c \<Rightarrow> c | None \<Rightarrow> ''Other'')"

text \<open>
  \<^verbatim>\<open>list.sort(key=..., reverse=True)\<close> and \<^verbatim>\<open>sorted(..., reverse=True)\<close>:
  Python's sort is stable, and with \<^verbatim>\<open>reverse=True\<close> it reverses the list, sorts
  it ascending and stably, and reverses the result.
\<close>

definition sort_reverse :: "('a \<Rightarrow> real) \<Rightarrow> 'a list \<Rightarrow> 'a list" where
  "sort_reverse f xs = rev (sort_key f (rev xs))"

text \<open>True division by a length.\<close>

definition truediv :: "real \<Rightarrow> nat \<Rightarrow> py_error + real" where
  "truediv x n = (if n = 0 then Inl ZeroDivisionError else Inr (x / real n))"

text \<open>
  \<^verbatim>\<open>analyze_articles\<close>: the agent after it and the average it prints (\<open>None\<close> on
  the early return of line 269). Floating-point rounding of the sum and the quotient
  is not modelled.
\<close>

definition analyze_articles :: "(nat \<Rightarrow> post_outcome) \<Rightarrow> agent \<Rightarrow> py_error + (agent \<times> real option)" where
  "analyze_articles gemini s =
     (if collected_articles s = [] then Inr (s, None)
      else
        (case analyze_batches gemini (batch_starts (length (collected_articles s)))
                (collected_articles s) of
           Inl e \<Rightarrow> Inl e
         | Inr arts \<Rightarrow>
             (let sorted_arts = sort_reverse get_relevance_score arts
              in case truediv (sum_list (map get_relevance_score sorted_arts)) (length sorted_arts) of
                   Inl e \<Rightarrow> Inl e
                 | Inr average \<Rightarrow> Inr (s\<lparr>collected_articles := sorted_arts\<rparr>, Some average))))"

section \<open>ai_news_agent.py: the digest's selection\<close>

text \<open>Lines 308 to 315 of \<^verbatim>\<open>generate_email_digest\<close>: the articles the digest is
  built from, \<open>None\<close> when the function returns \<^verbatim>\<open>None\<close>. The HTML is not
  modelled.\<close>

definition generate_email_digest :: "agent \<Rightarrow> article list option" where
  "generate_email_digest s =
     (if collected_articles s = [] then None
      else
        (let top_articles = take 15 (filter (\<lambda>a. get_relevance_score a \<ge> 60) (collected_articles s))
         in if top_articles = [] then Some (take 10 (collected_articles s))
            else Some top_articles))"

text \<open>The closed set of categories of the specification.\<close>

definition category_set :: "string set" where
  "category_set = {''AI/ML'', ''Technology'', ''Business'', ''Science'', ''Startups'',
                   ''Programming'', ''Other''}"

section \<open>telegram_bot.py: the data\<close>

text \<open>
  The bot's article dictionary (fields carry the prefix \<open>tg\<close> to keep them apart from
  the agent's). The first six keys are set by \<^verbatim>\<open>collect_news\<close>, the next four by
  \<^verbatim>\<open>analyze_articles_with_ai\<close>; an absent key is \<open>None\<close>. \<open>tg_other\<close>
  holds every other key of the dictionary with its value as JSON text: only an answer
  of the scoring service can add such keys, and no code of the bot reads them.
\<close>

record tg_article =
  tg_title :: string
  tg_link :: string
  tg_summary :: string
  tg_published :: string
  tg_source :: string
  tg_timestamp :: int
  tg_relevance_score :: "real option"
  tg_category :: "string option"
  tg_key_points :: "string list option"
  tg_sentiment :: "string option"
  tg_other :: "string \<Rightarrow> string option"

record tg_entry =
  tge_title :: "string option"
  tge_link :: "string option"
  tge_summary :: "string option"
  tge_published :: "string option"

text \<open>What one source gives in \<^verbatim>\<open>collect_news\<close>: the request or the parser
  raises (line 92 catches), or a response with its status and its parsed entries.\<close>

datatype tg_feed = TgFetchRaises | TgFeed int "tg_entry list"

record tg_fetch =
  tg_fetch_source :: string
  tg_fetch_now :: int
  tg_fetch_result :: tg_feed

text \<open>
  What \<^verbatim>\<open>article.update(ai_analysis)\<close> copies into the article (line 151): for each
  of the article's ten keys the value the answer gives, if it gives one, typed as the
  key is typed, and in \<open>ai_other\<close> every other key of the answer with its value as
  JSON text. The prompt asks for the four analysis keys, but \<^verbatim>\<open>update\<close> copies
  whatever keys the answer has.
\<close>

record ai_analysis =
  ai_title :: "string option"
  ai_link :: "string option"
  ai_summary :: "string option"
  ai_published :: "string option"
  ai_source :: "string option"
  ai_timestamp :: "int option"
  ai_relevance_score :: "real option"
  ai_category :: "string option"
  ai_key_points :: "string list option"
  ai_sentiment :: "string option"
  ai_other :: "string \<Rightarrow> string option"

text \<open>
  One call of the scoring service: \<open>AiRaises\<close> when \<^verbatim>\<open>requests.post\<close> raises;
  otherwise the status code and, for status 200, what lines 144 to 151 do: the pairs
  that \<^verbatim>\<open>article.update\<close> copies, and whether one of these lines raises.
  When \<^verbatim>\<open>response.json()\<close>, the path of line 145 or \<^verbatim>\<open>json.loads\<close> raises,
  nothing is copied. When the generated text is a JSON object, all its pairs are copied
  and nothing raises. When it is another value, \<^verbatim>\<open>update\<close> raises at once if
  the value cannot be iterated (a number, \<^verbatim>\<open>null\<close>), and otherwise copies the
  pairs it finds up to the first element that is not a pair, where it raises; on a
  value that holds pairs only (so on the empty list and the empty string) it does not
  raise.
\<close>

datatype ai_outcome = AiRaises | AiResponse int ai_analysis bool

text \<open>
  Article dictionaries are objects: a list of articles is a list of references into a
  store, and \<^verbatim>\<open>article.update(...)\<close> and \<^verbatim>\<open>article[k] = v\<close> change the store
  at the article's reference.
\<close>

type_synonym ref = nat

type_synonym store = "ref \<Rightarrow> tg_article option"

record bot =
  gemini_api_key :: "string option"
  articles_cache :: "tg_article list"
  last_update :: "int option"

section \<open>telegram_bot.py: analysis\<close>

definition modify :: "ref \<Rightarrow> (tg_article \<Rightarrow> tg_article) \<Rightarrow> store \<Rightarrow> store" where
  "modify r f h = (case h r of None \<Rightarrow> h | Some a \<Rightarrow> h(r \<mapsto> f a))"

text \<open>Lines 108 and 109.\<close>

definition skip_values :: "tg_article \<Rightarrow> tg_article" where
  "skip_values a = a\<lparr>tg_relevance_score := Some 7.5, tg_category := Some ''General''\<rparr>"

text \<open>Lines 154 to 157, and again 161 to 164.\<close>

definition fallback_values :: "tg_article \<Rightarrow> tg_article" where
  "fallback_values a = a\<lparr>
     tg_relevance_score := Some 7.0,
     tg_category := Some ''General'',
     tg_key_points := Some [],
     tg_sentiment := Some ''neutral'' \<rparr>"

text \<open>Line 151: \<^verbatim>\<open>article.update(ai_analysis)\<close>.\<close>

definition dict_update :: "ai_analysis \<Rightarrow> tg_article \<Rightarrow> tg_article" where
  "dict_update an a = \<lparr>
     tg_title = (case ai_title an of Some t \<Rightarrow> t | None \<Rightarrow> tg_title a),
     tg_link = (case ai_link an of Some l \<Rightarrow> l | None \<Rightarrow> tg_link a),
     tg_summary = (case ai_summary an of Some t \<Rightarrow> t | None \<Rightarrow> tg_summary a),
     tg_published = (case ai_published an of Some p \<Rightarrow> p | None \<Rightarrow> tg_published a),
     tg_source = (case ai_source an of Some n \<Rightarrow> n | None \<Rightarrow> tg_source a),
     tg_timestamp = (case ai_timestamp an of Some t \<Rightarrow> t | None \<Rightarrow> tg_timestamp a),
     tg_relevance_score = (case ai_relevance_score an of Some v \<Rightarrow> Some v | None \<Rightarrow> tg_relevance_score a),
     tg_category = (case ai_category an of Some c \<Rightarrow> Some c | None \<Rightarrow> tg_category a),
     tg_key_points = (case ai_key_points an of Some k \<Rightarrow> Some k | None \<Rightarrow> tg_key_points a),
     tg_sentiment = (case ai_sentiment an of Some t \<Rightarrow> Some t | None \<Rightarrow> tg_sentiment a),
     tg_other = tg_other a ++ ai_other an \<rparr>"

text \<open>The body of the loop of lines 114 to 166 on one article. An exception in lines
  144 to 151 reaches the handler of line 159 after \<^verbatim>\<open>update\<close> has copied what it
  copied.\<close>

fun analyze_one :: "ai_outcome \<Rightarrow> tg_article \<Rightarrow> tg_article" where
  "analyze_one AiRaises a = fallback_values a"
| "analyze_one (AiResponse status_code copied raises) a =
     (if status_code = 200 then
        (if raises then fallback_values (dict_update copied a) else dict_update copied a)
      else fallback_values a)"

text \<open>The loop of lines 114 to 166: \<open>k\<close> counts the calls of the service, and
  \<open>analyzed\<close> is the list the loop appends to.\<close>

fun analyze_each :: "(nat \<Rightarrow> ai_outcome) \<Rightarrow> nat \<Rightarrow> ref list \<Rightarrow> ref list \<Rightarrow> store \<Rightarrow> ref list \<times> store" where
  "analyze_each ai k [] analyzed h = (analyzed, h)"
| "analyze_each ai k (r # rs) analyzed h =
     analyze_each ai (Suc k) rs (analyzed @ [r]) (modify r (analyze_one (ai k)) h)"

text \<open>\<^verbatim>\<open>analyze_articles_with_ai\<close>: the list it returns and the store after it.
  \<^verbatim>\<open>not self.gemini_api_key\<close> holds for \<^verbatim>\<open>None\<close> and for the empty string.\<close>

definition analyze_articles_with_ai ::
  "string option \<Rightarrow> (nat \<Rightarrow> ai_outcome) \<Rightarrow> ref list \<Rightarrow> store \<Rightarrow> ref list \<times> store" where
  "analyze_articles_with_ai api_key ai articles h =
     (if api_key = None \<or> api_key = Some '''' then
        (articles, fold (\<lambda>r h'. modify r skip_values h') articles h)
      else analyze_each ai 0 articles [] h)"

section \<open>telegram_bot.py: collection and the cache\<close>

definition tg_make_article :: "string \<Rightarrow> int \<Rightarrow> tg_entry \<Rightarrow> tg_article" where
  "tg_make_article src now e = \<lparr>
     tg_title = (case tge_title e of Some t \<Rightarrow> t | None \<Rightarrow> ''No title''),
     tg_link = (case tge_link e of Some l \<Rightarrow> l | None \<Rightarrow> ''''),
     tg_summary = take 300 (case tge_summary e of Some t \<Rightarrow> t | None \<Rightarrow> '''') @ ''...'',
     tg_published = (case tge_published e of Some p \<Rightarrow> p | None \<Rightarrow> ''''),
     tg_source = src,
     tg_timestamp = now,
     tg_relevance_score = None,
     tg_category = None,
     tg_key_points = None,
     tg_sentiment = None,
     tg_other = Map.empty \<rparr>"

fun fetch_articles :: "tg_fetch \<Rightarrow> tg_article list" where
  "fetch_articles f =
     (case tg_fetch_result f of
        TgFetchRaises \<Rightarrow> []
      | TgFeed status_code entries \<Rightarrow>
          if status_code = 200
          then map (tg_make_article (tg_fetch_source f) (tg_fetch_now f)) (take 5 entries)
          else [])"

text \<open>The dictionaries that \<^verbatim>\<open>collect_news\<close> builds are new objects: they get the
  references \<open>0\<close>, \<open>1\<close>, ... of a store that holds nothing else.\<close>

definition alloc :: "tg_article list \<Rightarrow> ref list \<times> store" where
  "alloc articles =
     ([0..<length articles], \<lambda>r. if r < length articles then Some (articles ! r) else None)"

definition deref :: "store \<Rightarrow> ref list \<Rightarrow> tg_article list" where
  "deref h refs = List.map_filter h refs"

text \<open>\<^verbatim>\<open>collect_news\<close>: \<open>finished\<close> is the clock at line 99.\<close>

definition collect_news ::
  "tg_fetch list \<Rightarrow> (nat \<Rightarrow> ai_outcome) \<Rightarrow> int \<Rightarrow> bot \<Rightarrow> tg_article list \<times> bot" where
  "collect_news fetches ai finished b =
     (let articles = concat (map fetch_articles fetches);
          (refs, h) = alloc articles;
          (analyzed, h') = analyze_articles_with_ai (gemini_api_key b) ai refs h;
          analyzed_articles = deref h' analyzed
      in (analyzed_articles,
          b\<lparr>articles_cache := analyzed_articles, last_update := Some finished\<rparr>))"

text \<open>\<^verbatim>\<open>timedelta.seconds\<close>: the seconds field of the normalised difference, between
  0 and 86399; whole days are in the field \<^verbatim>\<open>days\<close>.\<close>

definition timedelta_seconds :: "int \<Rightarrow> int" where
  "timedelta_seconds d = (d div 1000000) mod 86400"

text \<open>The test of lines 173 and 174.\<close>

definition needs_update :: "int \<Rightarrow> bot \<Rightarrow> bool" where
  "needs_update now b =
     (articles_cache b = [] \<or>
      (case last_update b of None \<Rightarrow> True | Some t \<Rightarrow> timedelta_seconds (now - t) > 1800))"

definition tg_get_relevance_score :: "tg_article \<Rightarrow> real" where
  "tg_get_relevance_score a = (case tg_relevance_score a of Some v \<Rightarrow> v | None \<Rightarrow> 0)"

text \<open>What \<^verbatim>\<open>latest_news\<close> answers: the failure message of line 179, or the
  digest with its top articles and the time of the last update that it prints.\<close>

datatype answer = Unable | Digest "tg_article list" "int option"

text \<open>\<^verbatim>\<open>latest_news\<close>, called at clock \<open>now\<close>; \<open>fetches\<close>, \<open>ai\<close> and
  \<open>finished\<close> are what a rebuild would meet.\<close>

definition latest_news ::
  "int \<Rightarrow> tg_fetch list \<Rightarrow> (nat \<Rightarrow> ai_outcome) \<Rightarrow> int \<Rightarrow> bot \<Rightarrow> answer \<times> bot" where
  "latest_news now fetches ai finished b =
     (let b' = (if needs_update now b then snd (collect_news fetches ai finished b) else b)
      in if articles_cache b' = [] then (Unable, b')
         else (Digest (take 5 (sort_reverse tg_get_relevance_score (articles_cache b')))
                 (last_update b'), b'))"

section \<open>Sample inputs\<close>

text \<open>Concrete inputs on which the theorems below are evaluated.\<close>

definition sample_entry :: "string \<Rightarrow> string \<Rightarrow> entry" where
  "sample_entry t l = \<lparr>published_parsed = None, updated_parsed = None, entry_title = Some t,
     entry_link = Some l, entry_summary = None, entry_description = None\<rparr>"

definition sample_feed :: "string \<Rightarrow> feed_entry list \<Rightarrow> rss_fetch" where
  "sample_feed name entries = \<lparr>fetch_source = name, fetch_now = 0, fetch_result = Feed entries\<rparr>"

definition empty_agent :: agent where
  "empty_agent = \<lparr>collected_articles = []\<rparr>"

definition sample_post :: "string \<Rightarrow> child" where
  "sample_post pl = Post \<lparr>created_utc = Some 0, post_score = Some 100, post_title = Some ''P'',
     permalink = Some pl, selftext = None\<rparr>"

definition sample_listing :: "string \<Rightarrow> child list \<Rightarrow> reddit_fetch" where
  "sample_listing sub children = \<lparr>subreddit = sub, reddit_now = 0, reddit_result = Listing children\<rparr>"

definition sample_item :: "real \<Rightarrow> string \<Rightarrow> analysis_item" where
  "sample_item v c = \<lparr>item_relevance_score = Some v, item_category = Some c,
     item_key_insights = None, item_importance_level = None, item_summary = None\<rparr>"

definition answer_with :: "analysis_item list \<Rightarrow> post_outcome" where
  "answer_with items = Response 200 (Text (Analysis (Some items)))"

definition one_article :: agent where
  "one_article = collect [sample_feed ''Wired'' [Entry (sample_entry ''A'' ''u'')]] [] empty_agent"

definition two_feed :: agent where
  "two_feed = collect [sample_feed ''Wired''
     [Entry ((sample_entry ''A'' ''u'')\<lparr>published_parsed := Some 100\<rparr>),
      Entry ((sample_entry ''B'' ''v'')\<lparr>published_parsed := Some 200\<rparr>)]] [] empty_agent"

definition sample_tg_article :: "string \<Rightarrow> real \<Rightarrow> tg_article" where
  "sample_tg_article t v = \<lparr>tg_title = t, tg_link = '''', tg_summary = ''...'', tg_published = '''',
     tg_source = ''CNN'', tg_timestamp = 0, tg_relevance_score = Some v,
     tg_category = Some ''General'', tg_key_points = Some [], tg_sentiment = Some ''neutral'',
     tg_other = Map.empty\<rparr>"

definition sample_bot :: bot where
  "sample_bot = \<lparr>gemini_api_key = None,
     articles_cache = [sample_tg_article ''A'' 7, sample_tg_article ''B'' 9],
     last_update = Some 0\<rparr>"

definition ranked_pair :: "article list" where
  "ranked_pair =
     [update_article (sample_item 90 ''AI/ML'') (collected_articles two_feed ! 1),
      update_article (sample_item 50 ''AI/ML'') (collected_articles two_feed ! 0)]"

definition sample_tg_entry :: tg_entry where
  "sample_tg_entry = \<lparr>tge_title = Some ''A'', tge_link = Some ''u'', tge_summary = None,
     tge_published = None\<rparr>"

definition sample_tg_feed :: tg_fetch where
  "sample_tg_feed = \<lparr>tg_fetch_source = ''CNN'', tg_fetch_now = 0,
     tg_fetch_result = TgFeed 200 [sample_tg_entry]\<rparr>"

definition new_bot :: bot where
  "new_bot = \<lparr>gemini_api_key = None, articles_cache = [], last_update = None\<rparr>"

definition fresh_article :: tg_article where
  "fresh_article = tg_make_article ''CNN'' 0 sample_tg_entry"



section \<open>Collection: what the collected sequence holds\<close>

lemma collected_process_rss_feed:
  "collected_articles (snd (process_rss_feed n now r s)) =
     collected_articles s @ fst (process_rss_feed n now r s')"
  by (cases r) (simp_all add: Let_def)

lemma collected_fold_process_rss_feed:
  "collected_articles
     (fold (\<lambda>t s'. snd (process_rss_feed (fetch_source t) (fetch_now t) (fetch_result t) s')) tasks s) =
   collected_articles s @
     concat (map (\<lambda>t. fst (process_rss_feed (fetch_source t) (fetch_now t) (fetch_result t) s0)) tasks)"
proof (induction tasks arbitrary: s)
  case Nil
  show ?case by simp
next
  case (Cons t ts)
  show ?case
    by (simp add: Cons.IH collected_process_rss_feed [where s' = s0])
qed

lemma reddit_posts_acc:
  "reddit_posts sub now ps acc = acc @ reddit_posts sub now ps []"
proof (induction ps arbitrary: acc)
  case Nil
  show ?case by simp
next
  case (Cons c ps)
  show ?case
  proof (cases c)
    case NoData
    then show ?thesis by simp
  next
    case (Post p)
    have step: "reddit_posts sub now ps (acc @ [a]) = acc @ reddit_posts sub now ps [a]" for a
      using Cons.IH [of "acc @ [a]"] Cons.IH [of "[a]"] by simp
    show ?thesis
      using Post Cons.IH [of acc] by (simp add: step split: option.splits)
  qed
qed

lemma collected_collect_subreddit:
  "collected_articles (collect_subreddit f s) =
     collected_articles s @ collected_articles (collect_subreddit f (s0\<lparr>collected_articles := []\<rparr>))"
  using reddit_posts_acc [of _ _ _ "collected_articles s"]
  by (simp split: reddit_result.splits)

lemma collected_fold_collect_subreddit:
  "collected_articles (fold collect_subreddit fetches s) =
     collected_articles s @
     concat (map (\<lambda>f. collected_articles (collect_subreddit f (s0\<lparr>collected_articles := []\<rparr>))) fetches)"
proof (induction fetches arbitrary: s)
  case Nil
  show ?case by simp
next
  case (Cons f fs)
  show ?case
    using Cons.IH [of "collect_subreddit f s"] collected_collect_subreddit [of f s s0]
    by simp
qed

text \<open>
  C1, as the code has it. The collected sequence is the agent's earlier articles,
  then what each feed's \<^verbatim>\<open>process_rss_feed\<close> returned, in completion order, then
  what each subreddit appended, in list order. Every article a source kept is in it, as
  often as the source gave it: nothing compares (source, url) pairs and nothing is
  dropped.
\<close>

theorem collect_keeps_every_article:
  "collected_articles (collect tasks fetches s) =
     collected_articles s @
     concat (map (\<lambda>t. fst (process_rss_feed (fetch_source t) (fetch_now t) (fetch_result t) s)) tasks) @
     concat (map (\<lambda>f. collected_articles (collect_subreddit f (s\<lparr>collected_articles := []\<rparr>))) fetches)"
  by (simp add: collect_def collect_reddit_posts_def collect_rss_feeds_def
      collected_fold_collect_subreddit [where ?s0.0 = s]
      collected_fold_process_rss_feed [where ?s0.0 = s])

text \<open>
  C1 as the specification states it fails: a feed that lists the same link twice puts
  two articles with the same (source, url) pair into the collected sequence.
\<close>

theorem collect_repeats_counterexample:
  "map dedup_key (collected_articles
     (collect [sample_feed ''Wired'' [Entry (sample_entry ''A'' ''u''), Entry (sample_entry ''A'' ''u'')]] []
        empty_agent)) = [(''Wired'', ''u''), (''Wired'', ''u'')]"
  by (simp add: collect_def collect_rss_feeds_def collect_reddit_posts_def sample_feed_def
      sample_entry_def empty_agent_def dedup_key_def Let_def)

section \<open>Collection: a failing source\<close>

lemma reddit_posts_raises:
  "child_raises now c \<Longrightarrow>
   reddit_posts sub now (before @ c # rest) acc = reddit_posts sub now before acc"
proof (induction before arbitrary: acc)
  case Nil
  then show ?case
    by (cases c) (auto split: option.splits)
next
  case (Cons b before)
  show ?case
  proof (cases b)
    case NoData
    then show ?thesis by simp
  next
    case (Post p)
    then show ?thesis
      using Cons.IH [OF Cons.prems] by (simp split: option.splits)
  qed
qed

text \<open>
  C3, as the code has it. A failing source never aborts the collection and never
  loses what the other sources give. A feed whose fetch fails or whose processing
  raises contributes the empty list, and so does a subreddit whose fetch fails or whose
  listing does not parse: the collection with the failing source equals the collection
  without it. A subreddit whose listing raises at one of its children contributes the
  posts it kept before that child, since each post is appended as soon as it is built:
  the collection is what it would be had the listing ended before that child.
\<close>

theorem failing_source_is_isolated:
  "(fetch_result t = FetchFailed \<or> fetch_result t = FeedRaises \<longrightarrow>
      fst (process_rss_feed (fetch_source t) (fetch_now t) (fetch_result t) s) = [] \<and>
      collect (ts1 @ t # ts2) fetches s = collect (ts1 @ ts2) fetches s \<and>
      collected_articles (collect (ts1 @ t # ts2) fetches s) =
        collected_articles s @
        concat (map (\<lambda>u. fst (process_rss_feed (fetch_source u) (fetch_now u) (fetch_result u) s))
                  (ts1 @ ts2)) @
        concat (map (\<lambda>f. collected_articles (collect_subreddit f (s\<lparr>collected_articles := []\<rparr>)))
                  fetches)) \<and>
   (reddit_result f = RedditFetchFailed \<or> reddit_result f = RedditBadJson \<longrightarrow>
      collect_subreddit f s = s \<and>
      collect tasks (fs1 @ f # fs2) s = collect tasks (fs1 @ fs2) s) \<and>
   (reddit_result f = Listing (before @ c # rest) \<and> child_raises (reddit_now f) c \<longrightarrow>
      collect_subreddit f s = collect_subreddit (f\<lparr>reddit_result := Listing before\<rparr>) s \<and>
      collect tasks (fs1 @ f # fs2) s =
        collect tasks (fs1 @ f\<lparr>reddit_result := Listing before\<rparr> # fs2) s \<and>
      collected_articles (collect tasks (fs1 @ f # fs2) s) =
        collected_articles (collect tasks fs1 s) @
        reddit_posts (subreddit f) (reddit_now f) before [] @
        concat (map (\<lambda>g. collected_articles (collect_subreddit g (s\<lparr>collected_articles := []\<rparr>)))
                  fs2))"
proof (intro conjI impI)
  assume failed: "fetch_result t = FetchFailed \<or> fetch_result t = FeedRaises"
  then show nothing: "fst (process_rss_feed (fetch_source t) (fetch_now t) (fetch_result t) s) = []"
    by auto
  from failed show same: "collect (ts1 @ t # ts2) fetches s = collect (ts1 @ ts2) fetches s"
    by (auto simp add: collect_def collect_rss_feeds_def)
  show "collected_articles (collect (ts1 @ t # ts2) fetches s) =
        collected_articles s @
        concat (map (\<lambda>u. fst (process_rss_feed (fetch_source u) (fetch_now u) (fetch_result u) s))
                  (ts1 @ ts2)) @
        concat (map (\<lambda>f. collected_articles (collect_subreddit f (s\<lparr>collected_articles := []\<rparr>)))
                  fetches)"
    unfolding same
    by (simp only: collect_def collect_reddit_posts_def collect_rss_feeds_def
        collected_fold_collect_subreddit [where ?s0.0 = s]
        collected_fold_process_rss_feed [where ?s0.0 = s] append_assoc)
next
  assume failed: "reddit_result f = RedditFetchFailed \<or> reddit_result f = RedditBadJson"
  then show "collect_subreddit f s = s" by auto
  from failed show "collect tasks (fs1 @ f # fs2) s = collect tasks (fs1 @ fs2) s"
    by (auto simp add: collect_def collect_reddit_posts_def)
next
  assume "reddit_result f = Listing (before @ c # rest) \<and> child_raises (reddit_now f) c"
  then have listing: "reddit_result f = Listing (before @ c # rest)"
    and raises: "child_raises (reddit_now f) c"
    by simp_all
  have cut: "collect_subreddit f s' = collect_subreddit (f\<lparr>reddit_result := Listing before\<rparr>) s'" for s'
    using listing reddit_posts_raises [OF raises] by simp
  show "collect_subreddit f s = collect_subreddit (f\<lparr>reddit_result := Listing before\<rparr>) s"
    by (rule cut)
  show "collect tasks (fs1 @ f # fs2) s =
        collect tasks (fs1 @ f\<lparr>reddit_result := Listing before\<rparr> # fs2) s"
    by (simp only: collect_def collect_reddit_posts_def fold_append fold_Cons comp_apply cut)
  have "collected_articles (collect tasks (fs1 @ f # fs2) s) =
        collected_articles (collect_subreddit f (collect tasks fs1 s)) @
        concat (map (\<lambda>g. collected_articles (collect_subreddit g (s\<lparr>collected_articles := []\<rparr>)))
                  fs2)"
    by (simp add: collect_def collect_reddit_posts_def
        collected_fold_collect_subreddit [where ?s0.0 = s and fetches = fs2])
  moreover have "collected_articles (collect_subreddit f (collect tasks fs1 s)) =
        collected_articles
          (collect_subreddit (f\<lparr>reddit_result := Listing before\<rparr>) (collect tasks fs1 s))"
    by (simp only: cut)
  moreover have "collected_articles
          (collect_subreddit (f\<lparr>reddit_result := Listing before\<rparr>) (collect tasks fs1 s)) =
        collected_articles (collect tasks fs1 s) @
        reddit_posts (subreddit f) (reddit_now f) before []"
    using reddit_posts_acc [of "subreddit f" "reddit_now f" before "collected_articles (collect tasks fs1 s)"]
    by simp
  ultimately show "collected_articles (collect tasks (fs1 @ f # fs2) s) =
        collected_articles (collect tasks fs1 s) @
        reddit_posts (subreddit f) (reddit_now f) before [] @
        concat (map (\<lambda>g. collected_articles (collect_subreddit g (s\<lparr>collected_articles := []\<rparr>)))
                  fs2)"
    by simp
qed

theorem failing_source_is_isolated_witness:
  "fetch_result \<lparr>fetch_source = ''CNN'', fetch_now = 0, fetch_result = FeedRaises\<rparr> = FeedRaises \<and>
   reddit_result \<lparr>subreddit = ''artificial'', reddit_now = 0, reddit_result = RedditBadJson\<rparr> = RedditBadJson \<and>
   reddit_result (sample_listing ''programming'' [sample_post ''/r/p/1'', NoData, sample_post ''/r/p/2'']) =
     Listing ([sample_post ''/r/p/1''] @ NoData # [sample_post ''/r/p/2'']) \<and>
   child_raises (reddit_now (sample_listing ''programming''
     [sample_post ''/r/p/1'', NoData, sample_post ''/r/p/2''])) NoData \<and>
   fst (process_rss_feed ''CNN'' 0 FeedRaises empty_agent) = [] \<and>
   map dedup_key (collected_articles
     (collect [sample_feed ''Wired'' [Entry (sample_entry ''A'' ''u'')],
               \<lparr>fetch_source = ''CNN'', fetch_now = 0, fetch_result = FeedRaises\<rparr>,
               sample_feed ''BBC News'' [Entry (sample_entry ''B'' ''v'')]]
              [sample_listing ''technology'' [sample_post ''/r/t/1''],
               \<lparr>subreddit = ''artificial'', reddit_now = 0, reddit_result = RedditBadJson\<rparr>,
               sample_listing ''programming'' [sample_post ''/r/p/1'', NoData, sample_post ''/r/p/2'']]
        empty_agent)) =
     [(''Wired'', ''u''), (''BBC News'', ''v''), (''r/technology'', ''https://reddit.com/r/t/1''),
      (''r/programming'', ''https://reddit.com/r/p/1'')]"
proof -
  let ?t = "\<lparr>fetch_source = ''CNN'', fetch_now = 0, fetch_result = FeedRaises\<rparr>"
  let ?w = "sample_feed ''Wired'' [Entry (sample_entry ''A'' ''u'')]"
  let ?b = "sample_feed ''BBC News'' [Entry (sample_entry ''B'' ''v'')]"
  let ?g = "sample_listing ''technology'' [sample_post ''/r/t/1'']"
  let ?f = "\<lparr>subreddit = ''artificial'', reddit_now = 0, reddit_result = RedditBadJson\<rparr>"
  let ?m = "sample_listing ''programming'' [sample_post ''/r/p/1'', NoData, sample_post ''/r/p/2'']"
  let ?m' = "sample_listing ''programming'' [sample_post ''/r/p/1'']"
  have 0: "fst (process_rss_feed ''CNN'' 0 FeedRaises empty_agent) = []"
    and 1: "collect ([?w] @ ?t # [?b]) [?g, ?f, ?m] empty_agent =
            collect ([?w] @ [?b]) [?g, ?f, ?m] empty_agent"
    using failing_source_is_isolated [where t = ?t and ?ts1.0 = "[?w]" and ?ts2.0 = "[?b]"
        and fetches = "[?g, ?f, ?m]" and s = empty_agent]
    by simp_all
  have 2: "collect [?w, ?b] ([?g] @ ?f # [?m]) empty_agent = collect [?w, ?b] ([?g] @ [?m]) empty_agent"
    using failing_source_is_isolated [where f = ?f and tasks = "[?w, ?b]" and ?fs1.0 = "[?g]"
        and ?fs2.0 = "[?m]" and s = empty_agent]
    by simp
  have 3: "collect [?w, ?b] ([?g] @ ?m # []) empty_agent = collect [?w, ?b] ([?g] @ ?m' # []) empty_agent"
    using failing_source_is_isolated [where f = ?m and tasks = "[?w, ?b]" and ?fs1.0 = "[?g]"
        and ?fs2.0 = "[]" and s = empty_agent and before = "[sample_post ''/r/p/1'']"
        and c = NoData and rest = "[sample_post ''/r/p/2'']"]
    by (simp add: sample_listing_def)
  have 4: "map dedup_key (collected_articles (collect [?w, ?b] [?g, ?m'] empty_agent)) =
     [(''Wired'', ''u''), (''BBC News'', ''v''), (''r/technology'', ''https://reddit.com/r/t/1''),
      (''r/programming'', ''https://reddit.com/r/p/1'')]"
    by (simp add: collect_def collect_rss_feeds_def collect_reddit_posts_def sample_feed_def
      sample_entry_def empty_agent_def dedup_key_def Let_def sample_listing_def sample_post_def
      reddit_article_def one_day_def)
  from 0 1 2 3 4 show ?thesis by (simp add: sample_listing_def)
qed

text \<open>
  C3 as the specification states it fails: a subreddit whose listing raises at its
  second child has contributed its first post, not the empty sequence, and the
  collection differs from the collection without that subreddit.
\<close>

theorem failing_subreddit_keeps_posts_counterexample:
  "child_raises 0 NoData \<and>
   map dedup_key (collected_articles
     (collect [] [sample_listing ''programming'' [sample_post ''/r/p/1'', NoData, sample_post ''/r/p/2'']]
        empty_agent)) = [(''r/programming'', ''https://reddit.com/r/p/1'')] \<and>
   collected_articles (collect [] [] empty_agent) = []"
  by (simp add: collect_def collect_rss_feeds_def collect_reddit_posts_def
      empty_agent_def dedup_key_def sample_listing_def sample_post_def reddit_article_def
      one_day_def)

section \<open>Analysis: the enrichment loop\<close>

lemma length_match_analysis:
  "length (match_analysis i lb j items arts) = length arts"
  by (induction items arbitrary: j arts) (simp_all add: Let_def)

lemma length_analyze_batches:
  "analyze_batches gemini starts arts = Inr arts' \<Longrightarrow> length arts' = length arts"
proof (induction starts arbitrary: arts)
  case Nil
  then show ?case by simp
next
  case (Cons i starts)
  then show ?case
    by (auto simp add: Let_def length_match_analysis split: option.splits)
qed

lemma analyze_batches_error:
  "analyze_batches gemini starts arts = Inl e \<Longrightarrow> e = TypeError"
proof (induction starts arbitrary: arts)
  case Nil
  then show ?case by simp
next
  case (Cons i starts)
  then show ?case
    by (auto simp add: Let_def split: option.splits)
qed

text \<open>
  The loop over one answer touches exactly the positions of its batch that the answer
  covers, each once.
\<close>

lemma match_analysis_nth:
  "idx < length arts \<Longrightarrow>
   match_analysis i lb j items arts ! idx =
     (if i + j \<le> idx \<and> idx < i + lb \<and> idx - (i + j) < length items
      then update_article (items ! (idx - (i + j))) (arts ! idx)
      else arts ! idx)"
proof (induction items arbitrary: j arts)
  case Nil
  show ?case by simp
next
  case (Cons it its)
  define arts1 where "arts1 =
    (if j < lb then (if i + j < length arts
        then arts[i + j := update_article it (arts ! (i + j))] else arts) else arts)"
  have len: "length arts1 = length arts" by (simp add: arts1_def)
  have step: "match_analysis i lb j (it # its) arts = match_analysis i lb (Suc j) its arts1"
    by (simp add: Let_def arts1_def)
  have ih: "match_analysis i lb (Suc j) its arts1 ! idx =
     (if i + Suc j \<le> idx \<and> idx < i + lb \<and> idx - (i + Suc j) < length its
      then update_article (its ! (idx - (i + Suc j))) (arts1 ! idx)
      else arts1 ! idx)"
    using Cons.IH [of arts1 "Suc j"] Cons.prems len by simp
  have a1: "arts1 ! idx =
     (if idx = i + j \<and> j < lb then update_article it (arts ! idx) else arts ! idx)"
    using Cons.prems by (auto simp add: arts1_def)
  consider "idx = i + j" | "i + Suc j \<le> idx" | "idx < i + j" by linarith
  then show ?case
  proof cases
    case 1
    then show ?thesis unfolding step ih a1 by simp
  next
    case 2
    then have "idx - (i + j) = Suc (idx - (i + Suc j))" by simp
    with 2 show ?thesis unfolding step ih a1 by auto
  next
    case 3
    then show ?thesis unfolding step ih a1 by simp
  qed
qed

text \<open>
  What the whole loop leaves at each position: the article of position \<open>idx\<close> is
  updated from element \<open>idx mod batch_size\<close> of the answer to call
  \<open>idx div batch_size\<close>, when that answer has such an element, and is left as it
  was otherwise.
\<close>

lemma analyze_batches_nth_range:
  "analyze_batches gemini (map (\<lambda>k. k * batch_size) [k0..<k1]) arts = Inr arts' \<Longrightarrow>
   idx < length arts \<Longrightarrow>
   arts' ! idx =
     (if k0 * batch_size \<le> idx \<and> idx < k1 * batch_size
      then (case analyze_with_gemini (gemini (idx div batch_size)) of
              Some items \<Rightarrow>
                if idx mod batch_size < length items
                then update_article (items ! (idx mod batch_size)) (arts ! idx)
                else arts ! idx
            | None \<Rightarrow> arts ! idx)
      else arts ! idx)"
proof (induction "k1 - k0" arbitrary: k0 arts)
  case 0
  then have le: "k1 \<le> k0" by simp
  then have empty: "[k0..<k1] = []" by simp
  have "k1 * batch_size \<le> k0 * batch_size" using le by (rule mult_le_mono1)
  then have out: "\<not> (k0 * batch_size \<le> idx \<and> idx < k1 * batch_size)" by linarith
  have "arts' = arts" using "0.prems"(1) by (simp add: empty)
  then show ?case by (simp only: out if_False)
next
  case (Suc m)
  then have lt: "k0 < k1" by simp
  then have upt: "[k0..<k1] = k0 # [Suc k0..<k1]" by (simp add: upt_conv_Cons)
  have div0: "(k0 * batch_size) div batch_size = k0" by (simp add: batch_size_def)
  obtain items where items: "analyze_with_gemini (gemini k0) = Some items"
    using Suc.prems(1) by (cases "analyze_with_gemini (gemini k0)") (simp_all add: upt div0 Let_def)
  define lb where "lb = length (take batch_size (drop (k0 * batch_size) arts))"
  define arts1 where "arts1 = match_analysis (k0 * batch_size) lb 0 items arts"
  have rest: "analyze_batches gemini (map (\<lambda>k. k * batch_size) [Suc k0..<k1]) arts1 = Inr arts'"
    using Suc.prems(1) items by (simp add: upt div0 Let_def arts1_def lb_def)
  have len1: "length arts1 = length arts" by (simp add: arts1_def length_match_analysis)
  have m: "m = k1 - Suc k0" using Suc.hyps(2) by simp
  have ih: "arts' ! idx =
     (if Suc k0 * batch_size \<le> idx \<and> idx < k1 * batch_size
      then (case analyze_with_gemini (gemini (idx div batch_size)) of
              Some items \<Rightarrow>
                if idx mod batch_size < length items
                then update_article (items ! (idx mod batch_size)) (arts1 ! idx)
                else arts1 ! idx
            | None \<Rightarrow> arts1 ! idx)
      else arts1 ! idx)"
    using Suc.hyps(1) [OF m rest] Suc.prems(2) len1 by simp
  have a1: "arts1 ! idx =
     (if k0 * batch_size \<le> idx \<and> idx < k0 * batch_size + lb \<and> idx - k0 * batch_size < length items
      then update_article (items ! (idx - k0 * batch_size)) (arts ! idx)
      else arts ! idx)"
    using match_analysis_nth [OF Suc.prems(2), of "k0 * batch_size" lb 0 items]
    by (simp add: arts1_def)
  have lb: "lb = min batch_size (length arts - k0 * batch_size)" by (simp add: lb_def)
  consider "idx < k0 * batch_size" | "k0 * batch_size \<le> idx" "idx < Suc k0 * batch_size"
    | "Suc k0 * batch_size \<le> idx" by linarith
  then show ?case
  proof cases
    case 1
    then show ?thesis unfolding ih a1 by simp
  next
    case 2
    then have d: "idx div batch_size = k0" and r: "idx mod batch_size = idx - k0 * batch_size"
      by (simp_all add: batch_size_def) presburger+
    have inb: "idx < k0 * batch_size + lb" using 2 Suc.prems(2) by (simp add: lb)
    have "idx < k1 * batch_size"
    proof -
      have "Suc k0 \<le> k1" using lt by simp
      then have "Suc k0 * batch_size \<le> k1 * batch_size" by (rule mult_le_mono1)
      with 2 show ?thesis by linarith
    qed
    with 2 inb show ?thesis unfolding ih a1 by (simp add: d r items)
  next
    case 3
    then have "\<not> idx < k0 * batch_size + lb" by (simp add: lb)
    moreover have "k0 * batch_size \<le> idx" using 3 by simp
    ultimately show ?thesis unfolding ih a1 using 3 by simp
  qed
qed

lemma analyze_batches_nth:
  assumes "analyze_batches gemini (batch_starts (length arts)) arts = Inr arts'"
    and "idx < length arts"
  shows "arts' ! idx =
     (case analyze_with_gemini (gemini (idx div batch_size)) of
        Some items \<Rightarrow>
          if idx mod batch_size < length items
          then update_article (items ! (idx mod batch_size)) (arts ! idx)
          else arts ! idx
      | None \<Rightarrow> arts ! idx)"
proof -
  have "idx < ((length arts + batch_size - 1) div batch_size) * batch_size"
    using assms(2) by (simp add: batch_size_def)
  then show ?thesis
    using analyze_batches_nth_range [of gemini 0 "(length arts + batch_size - 1) div batch_size" arts arts' idx]
      assms by (simp add: batch_starts_def)
qed

lemmas collect_defs = collect_def collect_rss_feeds_def collect_reddit_posts_def

lemmas analyze_defs = analyze_articles_def batch_starts_def batch_size_def sort_reverse_def
  truediv_def update_article_def get_relevance_score_def get_category_def

lemma one_article_eq:
  "collected_articles one_article =
     [\<lparr>title = ''A'', url = ''u'', source = ''Wired'', description = '''', published = 0,
       kind = Rss, score = None, relevance_score = None, category = None, key_insights = None,
       importance_level = None, ai_summary = None\<rparr>]"
  by (simp add: one_article_def sample_feed_def sample_entry_def empty_agent_def collect_defs
      Let_def truncate_description_def)

lemma two_feed_eq:
  "collected_articles two_feed =
     [\<lparr>title = ''A'', url = ''u'', source = ''Wired'', description = '''', published = 100,
       kind = Rss, score = None, relevance_score = None, category = None, key_insights = None,
       importance_level = None, ai_summary = None\<rparr>,
      \<lparr>title = ''B'', url = ''v'', source = ''Wired'', description = '''', published = 200,
       kind = Rss, score = None, relevance_score = None, category = None, key_insights = None,
       importance_level = None, ai_summary = None\<rparr>]"
  by (simp add: two_feed_def sample_feed_def sample_entry_def empty_agent_def collect_defs
      Let_def truncate_description_def one_day_def)

text \<open>
  The collectors set no analysis key.
\<close>

lemma process_entry_unscored:
  "process_entry n now e = Some a \<Longrightarrow> relevance_score a = None \<and> category a = None"
  by (cases e) (auto simp add: Let_def split: if_splits)

lemma process_rss_feed_unscored:
  "a \<in> set (fst (process_rss_feed n now r s)) \<Longrightarrow> relevance_score a = None \<and> category a = None"
  by (cases r) (auto simp add: Let_def List.map_filter_def dest: process_entry_unscored)

lemma reddit_posts_unscored:
  "a \<in> set (reddit_posts sub now ps acc) \<Longrightarrow>
   (\<forall>x \<in> set acc. relevance_score x = None \<and> category x = None) \<Longrightarrow>
   relevance_score a = None \<and> category a = None"
proof (induction sub now ps acc rule: reddit_posts.induct)
  case (3 sub now p ps acc)
  then show ?case
    by (auto simp add: reddit_article_def split: option.splits if_splits)
qed simp_all

lemma collect_unscored:
  assumes "a \<in> set (collected_articles (collect tasks fetches empty_agent))"
  shows "relevance_score a = None \<and> category a = None"
proof -
  have "a \<in> set (concat (map (\<lambda>t. fst (process_rss_feed (fetch_source t) (fetch_now t) (fetch_result t) empty_agent)) tasks)) \<or>
        a \<in> set (concat (map (\<lambda>f. collected_articles (collect_subreddit f (empty_agent\<lparr>collected_articles := []\<rparr>))) fetches))"
    using assms
    by (simp add: collect_defs collected_fold_collect_subreddit [where ?s0.0 = empty_agent]
      collected_fold_process_rss_feed [where ?s0.0 = empty_agent] empty_agent_def)
  then show ?thesis
  proof
    assume "a \<in> set (concat (map (\<lambda>t. fst (process_rss_feed (fetch_source t) (fetch_now t) (fetch_result t) empty_agent)) tasks))"
    then show ?thesis by (auto dest: process_rss_feed_unscored)
  next
    assume "a \<in> set (concat (map (\<lambda>f. collected_articles (collect_subreddit f (empty_agent\<lparr>collected_articles := []\<rparr>))) fetches))"
    then obtain f where "a \<in> set (collected_articles (collect_subreddit f (empty_agent\<lparr>collected_articles := []\<rparr>)))"
      by auto
    then show ?thesis
      by (cases "reddit_result f") (auto dest: reddit_posts_unscored)
  qed
qed

lemma scoring_call_failed_empty:
  "scoring_call_failed outcome \<Longrightarrow> analyze_with_gemini outcome = Some []"
  by (cases outcome) auto

section \<open>Analysis: a failed scoring call\<close>

text \<open>
  C2, as the code has it. When the scoring call of a batch raises, returns a status
  other than 200 or returns a body that is not valid JSON, \<^verbatim>\<open>analyze_with_gemini\<close>
  returns the empty list and the loop stores nothing: every article of that batch ends
  the enrichment loop exactly as it was collected, with no \<^verbatim>\<open>relevance_score\<close> and
  no \<^verbatim>\<open>category\<close> key (the agent has no sentiment key at all). Code that reads
  the article later substitutes the score 0 and the category \<open>Other\<close>.
\<close>

theorem failed_batch_leaves_articles_unscored:
  assumes "arts = collected_articles (collect tasks fetches empty_agent)"
    and "analyze_batches gemini (batch_starts (length arts)) arts = Inr arts'"
    and "idx < length arts"
    and "scoring_call_failed (gemini (idx div batch_size))"
  shows "arts' ! idx = arts ! idx \<and>
         relevance_score (arts' ! idx) = None \<and> category (arts' ! idx) = None \<and>
         get_relevance_score (arts' ! idx) = 0 \<and> get_category (arts' ! idx) = ''Other''"
proof -
  have same: "arts' ! idx = arts ! idx"
    using analyze_batches_nth [OF assms(2,3)] scoring_call_failed_empty [OF assms(4)] by simp
  have "arts ! idx \<in> set (collected_articles (collect tasks fetches empty_agent))"
    using assms(1,3) by simp
  then have "relevance_score (arts ! idx) = None \<and> category (arts ! idx) = None"
    by (rule collect_unscored)
  with same show ?thesis
    by (simp add: get_relevance_score_def get_category_def)
qed

lemma analyze_one_article_failed:
  "analyze_batches (\<lambda>k. PostRaises) (batch_starts (length (collected_articles one_article)))
     (collected_articles one_article) = Inr (collected_articles one_article)"
  by (simp add: one_article_eq batch_starts_def batch_size_def)

theorem failed_batch_leaves_articles_unscored_witness:
  "analyze_batches (\<lambda>k. PostRaises) (batch_starts (length (collected_articles one_article)))
     (collected_articles one_article) = Inr (collected_articles one_article) \<and>
   0 < length (collected_articles one_article) \<and>
   scoring_call_failed PostRaises \<and>
   category (collected_articles one_article ! 0) = None \<and>
   get_category (collected_articles one_article ! 0) = ''Other''"
  using failed_batch_leaves_articles_unscored [of "collected_articles one_article"
      "[sample_feed ''Wired'' [Entry (sample_entry ''A'' ''u'')]]" "[]" "\<lambda>k. PostRaises"
      "collected_articles one_article" 0]
    analyze_one_article_failed
  by (simp add: one_article_def [symmetric]) (simp add: one_article_eq)

text \<open>
  C2 as the specification states it fails: after a scoring call that raises, the one
  collected article carries neither a category nor a relevance score.
\<close>

theorem failed_batch_counterexample:
  "\<exists>s'. analyze_articles (\<lambda>k. PostRaises) one_article = Inr (s', Some 0) \<and>
     map category (collected_articles s') = [None] \<and>
     map relevance_score (collected_articles s') = [None]"
  by (simp add: analyze_defs one_article_eq)

section \<open>Analysis: the stored score\<close>

text \<open>
  C6, as the code has it. For an article that the answer covers, the stored
  \<^verbatim>\<open>relevance_score\<close> is the number the scoring service returned for its position,
  and 50 when the element has none. No bound is applied to it, so it lies between 0 and
  100 only when the service's number does.
\<close>

theorem stored_score_is_service_score:
  assumes "analyze_batches gemini (batch_starts (length arts)) arts = Inr arts'"
    and "idx < length arts"
    and "analyze_with_gemini (gemini (idx div batch_size)) = Some items"
    and "idx mod batch_size < length items"
  shows "relevance_score (arts' ! idx) =
           Some (case item_relevance_score (items ! (idx mod batch_size)) of
                   Some v \<Rightarrow> v | None \<Rightarrow> 50)"
  using analyze_batches_nth [OF assms(1,2)] assms(3,4)
  by (simp add: update_article_def)

lemma analyze_one_article_150:
  "analyze_batches (\<lambda>k. answer_with [sample_item 150 ''AI/ML''])
     (batch_starts (length (collected_articles one_article))) (collected_articles one_article) =
   Inr [update_article (sample_item 150 ''AI/ML'') (collected_articles one_article ! 0)]"
  by (simp add: one_article_eq batch_starts_def batch_size_def answer_with_def)

theorem stored_score_is_service_score_witness:
  "analyze_batches (\<lambda>k. answer_with [sample_item 150 ''AI/ML''])
     (batch_starts (length (collected_articles one_article))) (collected_articles one_article) =
     Inr [update_article (sample_item 150 ''AI/ML'') (collected_articles one_article ! 0)] \<and>
   0 < length (collected_articles one_article) \<and>
   analyze_with_gemini (answer_with [sample_item 150 ''AI/ML'']) = Some [sample_item 150 ''AI/ML''] \<and>
   relevance_score ([update_article (sample_item 150 ''AI/ML'') (collected_articles one_article ! 0)] ! 0)
     = Some 150"
  using stored_score_is_service_score [of "\<lambda>k. answer_with [sample_item 150 ''AI/ML'']"
      "collected_articles one_article"
      "[update_article (sample_item 150 ''AI/ML'') (collected_articles one_article ! 0)]" 0
      "[sample_item 150 ''AI/ML'']"]
    analyze_one_article_150
  by (simp add: one_article_eq answer_with_def sample_item_def batch_size_def)

text \<open>
  C6 as the specification states it fails: a score of 150 from the scoring service is
  stored as 150.
\<close>

theorem score_not_clamped_counterexample:
  "\<exists>s'. analyze_articles (\<lambda>k. answer_with [sample_item 150 ''AI/ML'']) one_article = Inr (s', Some 150) \<and>
     map relevance_score (collected_articles s') = [Some 150]"
  by (simp add: analyze_defs one_article_eq sample_item_def answer_with_def)

section \<open>Ranking\<close>

lemma length_sort_reverse: "length (sort_reverse f xs) = length xs"
  by (simp add: sort_reverse_def)

lemma sorted_wrt_sort_reverse:
  "sorted_wrt (\<lambda>a b. f a \<ge> f b) (sort_reverse f xs)"
proof -
  have "sorted (map f (sort_key f (rev xs)))" by simp
  then have "sorted_wrt (\<lambda>a b. f a \<le> f b) (sort_key f (rev xs))"
    by (simp add: sorted_map)
  then show ?thesis
    by (simp add: sort_reverse_def sorted_wrt_rev)
qed

lemma filter_sort_reverse:
  "filter (\<lambda>y. f y = k) (sort_reverse f xs) = filter (\<lambda>y. f y = k) xs"
  by (simp add: sort_reverse_def sort_key_stable flip: rev_filter)

lemma mset_sort_reverse: "mset (sort_reverse f xs) = mset xs"
  by (simp add: sort_reverse_def)

text \<open>
  C4, as the code has it. The agent's articles after \<^verbatim>\<open>analyze_articles\<close>, and
  the ranking from which \<^verbatim>\<open>latest_news\<close> takes its first five, are sorted
  non-increasing by relevance score and are a permutation of the enriched articles;
  articles with equal scores keep the order they had before the sort (the order of
  collection). The publication time is no part of the key.
\<close>

theorem ranking_is_descending_and_stable:
  "(collected_articles s \<noteq> [] \<and> analyze_articles gemini s = Inr (s', avg) \<longrightarrow>
      (\<exists>arts. analyze_batches gemini (batch_starts (length (collected_articles s)))
                 (collected_articles s) = Inr arts \<and>
         sorted_wrt (\<lambda>a b. get_relevance_score a \<ge> get_relevance_score b) (collected_articles s') \<and>
         (\<forall>k. filter (\<lambda>a. get_relevance_score a = k) (collected_articles s') =
              filter (\<lambda>a. get_relevance_score a = k) arts) \<and>
         mset (collected_articles s') = mset arts)) \<and>
   (latest_news now fetches ai finished b = (Digest shown t, b') \<longrightarrow>
      (\<exists>ranked. shown = take 5 ranked \<and>
         sorted_wrt (\<lambda>a b. tg_get_relevance_score a \<ge> tg_get_relevance_score b) ranked \<and>
         (\<forall>k. filter (\<lambda>a. tg_get_relevance_score a = k) ranked =
              filter (\<lambda>a. tg_get_relevance_score a = k) (articles_cache b')) \<and>
         mset ranked = mset (articles_cache b')))"
proof (intro conjI impI)
  assume "collected_articles s \<noteq> [] \<and> analyze_articles gemini s = Inr (s', avg)"
  then have a: "collected_articles s \<noteq> []" "analyze_articles gemini s = Inr (s', avg)"
    by simp_all
  obtain arts where arts: "analyze_batches gemini (batch_starts (length (collected_articles s)))
                 (collected_articles s) = Inr arts"
  proof (cases "analyze_batches gemini (batch_starts (length (collected_articles s))) (collected_articles s)")
    case (Inl e)
    with a show ?thesis by (simp add: analyze_articles_def)
  next
    case (Inr arts)
    then show ?thesis by (rule that)
  qed
  have "length (sort_reverse get_relevance_score arts) \<noteq> 0"
    using a length_analyze_batches [OF arts] by (simp add: length_sort_reverse)
  then have "collected_articles s' = sort_reverse get_relevance_score arts"
    using a arts by (auto simp add: analyze_articles_def truediv_def Let_def)
  then show "\<exists>arts. analyze_batches gemini (batch_starts (length (collected_articles s)))
                 (collected_articles s) = Inr arts \<and>
         sorted_wrt (\<lambda>a b. get_relevance_score a \<ge> get_relevance_score b) (collected_articles s') \<and>
         (\<forall>k. filter (\<lambda>a. get_relevance_score a = k) (collected_articles s') =
              filter (\<lambda>a. get_relevance_score a = k) arts) \<and>
         mset (collected_articles s') = mset arts"
    using arts by (simp add: sorted_wrt_sort_reverse filter_sort_reverse mset_sort_reverse)
next
  assume "latest_news now fetches ai finished b = (Digest shown t, b')"
  then have "shown = take 5 (sort_reverse tg_get_relevance_score (articles_cache b'))"
    by (auto simp add: latest_news_def Let_def split: if_splits)
  then show "\<exists>ranked. shown = take 5 ranked \<and>
         sorted_wrt (\<lambda>a b. tg_get_relevance_score a \<ge> tg_get_relevance_score b) ranked \<and>
         (\<forall>k. filter (\<lambda>a. tg_get_relevance_score a = k) ranked =
              filter (\<lambda>a. tg_get_relevance_score a = k) (articles_cache b')) \<and>
         mset ranked = mset (articles_cache b')"
    by (intro exI [of _ "sort_reverse tg_get_relevance_score (articles_cache b')"])
       (simp add: sorted_wrt_sort_reverse filter_sort_reverse mset_sort_reverse)
qed

lemma sample_bot_latest:
  "latest_news 0 [] (\<lambda>k. AiRaises) 0 sample_bot =
     (Digest [sample_tg_article ''B'' 9, sample_tg_article ''A'' 7] (Some 0), sample_bot)"
  by (simp add: latest_news_def needs_update_def timedelta_seconds_def sample_bot_def
      sort_reverse_def tg_get_relevance_score_def sample_tg_article_def)

lemma two_feed_ranked:
  "analyze_articles (\<lambda>k. answer_with [sample_item 50 ''AI/ML'', sample_item 90 ''AI/ML'']) two_feed =
     Inr (\<lparr>collected_articles =
        [update_article (sample_item 90 ''AI/ML'') (collected_articles two_feed ! 1),
         update_article (sample_item 50 ''AI/ML'') (collected_articles two_feed ! 0)]\<rparr>, Some 70)"
  by (simp add: analyze_defs two_feed_eq sample_item_def answer_with_def)

theorem ranking_is_descending_and_stable_witness:
  "collected_articles two_feed \<noteq> [] \<and>
   analyze_articles (\<lambda>k. answer_with [sample_item 50 ''AI/ML'', sample_item 90 ''AI/ML'']) two_feed =
     Inr (\<lparr>collected_articles = ranked_pair\<rparr>, Some 70) \<and>
   sorted_wrt (\<lambda>a b. get_relevance_score a \<ge> get_relevance_score b) ranked_pair \<and>
   map get_relevance_score ranked_pair = [90, 50] \<and>
   latest_news 0 [] (\<lambda>k. AiRaises) 0 sample_bot =
     (Digest [sample_tg_article ''B'' 9, sample_tg_article ''A'' 7] (Some 0), sample_bot) \<and>
   (\<exists>ranked. [sample_tg_article ''B'' 9, sample_tg_article ''A'' 7] = take 5 ranked \<and>
      sorted_wrt (\<lambda>a b. tg_get_relevance_score a \<ge> tg_get_relevance_score b) ranked \<and>
      mset ranked = mset (articles_cache sample_bot))"
proof -
  have 1: "collected_articles two_feed \<noteq> []" by (simp add: two_feed_eq)
  have 2: "analyze_articles (\<lambda>k. answer_with [sample_item 50 ''AI/ML'', sample_item 90 ''AI/ML'']) two_feed =
     Inr (\<lparr>collected_articles = ranked_pair\<rparr>, Some 70)"
    using two_feed_ranked by (simp add: ranked_pair_def)
  have 3: "map get_relevance_score ranked_pair = [90, 50]"
    by (simp add: ranked_pair_def update_article_def get_relevance_score_def sample_item_def)
  note 4 = sample_bot_latest
  from ranking_is_descending_and_stable [where s = two_feed
      and gemini = "\<lambda>k. answer_with [sample_item 50 ''AI/ML'', sample_item 90 ''AI/ML'']"
      and s' = "\<lparr>collected_articles = ranked_pair\<rparr>" and avg = "Some 70"
      and now = 0 and fetches = "[]" and ai = "\<lambda>k. AiRaises" and finished = 0 and b = sample_bot
      and shown = "[sample_tg_article ''B'' 9, sample_tg_article ''A'' 7]" and t = "Some 0"
      and b' = sample_bot] 1 2 3 4
  show ?thesis by auto
qed

text \<open>
  C4 as the specification states it fails: of two articles with the same score 50,
  the one published earlier (at 100) stays before the one published later (at 200).
\<close>

theorem ties_keep_collection_order_counterexample:
  "\<exists>s'. analyze_articles (\<lambda>k. answer_with [sample_item 50 ''AI/ML'', sample_item 50 ''AI/ML'']) two_feed
           = Inr (s', Some 50) \<and>
     map (\<lambda>a. (get_relevance_score a, published a)) (collected_articles s') = [(50, 100), (50, 200)]"
  by (simp add: analyze_defs two_feed_eq sample_item_def answer_with_def)

section \<open>The digest's selection is never empty\<close>

text \<open>
  C5. When the agent holds at least one article, \<^verbatim>\<open>generate_email_digest\<close>
  builds its digest from a non-empty selection: when no article reaches the minimum
  score 60, the selection is the first ten of all articles.
\<close>

theorem digest_selection_never_empty:
  "collected_articles s \<noteq> [] \<Longrightarrow>
     (\<exists>top. generate_email_digest s = Some top \<and> top \<noteq> [] \<and>
        (filter (\<lambda>a. get_relevance_score a \<ge> 60) (collected_articles s) = [] \<longrightarrow>
           top = take 10 (collected_articles s)))"
  by (auto simp add: generate_email_digest_def Let_def)

theorem digest_selection_never_empty_witness:
  "collected_articles one_article \<noteq> [] \<and>
   filter (\<lambda>a. get_relevance_score a \<ge> 60) (collected_articles one_article) = [] \<and>
   generate_email_digest one_article = Some (take 10 (collected_articles one_article)) \<and>
   take 10 (collected_articles one_article) \<noteq> []"
  using digest_selection_never_empty [of one_article]
  by (simp add: one_article_eq get_relevance_score_def)

section \<open>The average is never a division by zero\<close>

text \<open>
  C10. \<^verbatim>\<open>analyze_articles\<close> never raises \<^verbatim>\<open>ZeroDivisionError\<close>: with no
  collected article it returns at once, before any division, and otherwise the list
  whose length it divides by is as long as the collected list.
\<close>

theorem average_never_divides_by_zero:
  "analyze_articles gemini s \<noteq> Inl ZeroDivisionError \<and>
   (collected_articles s = [] \<longrightarrow> analyze_articles gemini s = Inr (s, None))"
proof (cases "collected_articles s = []")
  case True
  then show ?thesis by (simp add: analyze_articles_def)
next
  case False
  show ?thesis
  proof (cases "analyze_batches gemini (batch_starts (length (collected_articles s))) (collected_articles s)")
    case (Inl e)
    have "e = TypeError"
      using Inl by (rule analyze_batches_error)
    with Inl False show ?thesis by (simp add: analyze_articles_def)
  next
    case (Inr arts)
    then have "length arts = length (collected_articles s)"
      by (rule length_analyze_batches)
    with False have "length (sort_reverse get_relevance_score arts) \<noteq> 0"
      by (simp add: length_sort_reverse)
    with Inr False show ?thesis
      by (simp add: analyze_articles_def truediv_def Let_def)
  qed
qed

theorem average_never_divides_by_zero_witness:
  "collected_articles empty_agent = [] \<and>
   analyze_articles (\<lambda>k. PostRaises) empty_agent = Inr (empty_agent, None) \<and>
   analyze_articles (\<lambda>k. Response 200 NoCandidates) one_article = Inl TypeError"
  using average_never_divides_by_zero [of "\<lambda>k. PostRaises" empty_agent]
  by (simp add: empty_agent_def) (simp add: analyze_defs one_article_eq)

section \<open>telegram_bot.py: what the analysis does to the store\<close>

lemma modify_apply:
  "modify r f h r0 = (if r0 = r then map_option f (h r) else h r0)"
  by (cases "h r") (simp_all add: modify_def)

lemma fold_modify_idem:
  assumes "\<And>a. f (f a) = f a"
  shows "fold (\<lambda>r h'. modify r f h') refs h r0 =
           (if r0 \<in> set refs then map_option f (h r0) else h r0)"
proof (induction refs arbitrary: h)
  case Nil
  show ?case by simp
next
  case (Cons r refs)
  have "fold (\<lambda>r h'. modify r f h') (r # refs) h r0 =
        fold (\<lambda>r h'. modify r f h') refs (modify r f h) r0"
    by simp
  also have "\<dots> = (if r0 \<in> set refs then map_option f (modify r f h r0) else modify r f h r0)"
    by (rule Cons.IH)
  also have "\<dots> = (if r0 \<in> set (r # refs) then map_option f (h r0) else h r0)"
    by (cases "h r0") (auto simp add: modify_apply assms)
  finally show ?case .
qed

lemma fst_analyze_each:
  "fst (analyze_each ai k refs analyzed h) = analyzed @ refs"
  by (induction refs arbitrary: k analyzed h) simp_all

lemma analyze_each_other:
  "r0 \<notin> set refs \<Longrightarrow> snd (analyze_each ai k refs analyzed h) r0 = h r0"
  by (induction refs arbitrary: k analyzed h) (simp_all add: modify_apply)

lemma analyze_each_nth:
  "distinct refs \<Longrightarrow> j < length refs \<Longrightarrow>
   snd (analyze_each ai k refs analyzed h) (refs ! j) =
     map_option (analyze_one (ai (k + j))) (h (refs ! j))"
proof (induction refs arbitrary: k analyzed h j)
  case Nil
  then show ?case by simp
next
  case (Cons r refs)
  show ?case
  proof (cases j)
    case 0
    then show ?thesis
      using Cons.prems by (simp add: analyze_each_other modify_apply)
  next
    case (Suc j')
    then have j': "j' < length refs" and ne: "refs ! j' \<noteq> r" and d: "distinct refs"
      using Cons.prems by auto
    have "snd (analyze_each ai k (r # refs) analyzed h) ((r # refs) ! j) =
          snd (analyze_each ai (Suc k) refs (analyzed @ [r]) (modify r (analyze_one (ai k)) h)) (refs ! j')"
      using Suc by simp
    also have "\<dots> = map_option (analyze_one (ai (Suc k + j')))
                         (modify r (analyze_one (ai k)) h (refs ! j'))"
      using d j' by (rule Cons.IH)
    also have "\<dots> = map_option (analyze_one (ai (k + j))) (h ((r # refs) ! j))"
      using Suc ne by (simp add: modify_apply)
    finally show ?thesis .
  qed
qed

lemma skip_values_idem: "skip_values (skip_values a) = skip_values a"
  by (simp add: skip_values_def)






section \<open>telegram_bot.py: what a rebuild collects\<close>

lemma map_filter_Some:
  "(\<And>x. x \<in> set xs \<Longrightarrow> f x = Some (g x)) \<Longrightarrow> List.map_filter f xs = map g xs"
  by (induction xs) (simp_all add: List.map_filter_simps)

lemma collect_news_no_key:
  assumes "gemini_api_key b = None \<or> gemini_api_key b = Some ''''"
  shows "fst (collect_news fetches ai finished b) =
           map skip_values (concat (map fetch_articles fetches))"
proof -
  let ?arts = "concat (map fetch_articles fetches)"
  let ?h = "\<lambda>r. if r < length ?arts then Some (?arts ! r) else None"
  let ?h' = "fold (\<lambda>r h'. modify r skip_values h') [0..<length ?arts] ?h"
  have "fst (collect_news fetches ai finished b) = deref ?h' [0..<length ?arts]"
    using assms
    by (auto simp add: collect_news_def alloc_def analyze_articles_with_ai_def Let_def)
  also have "\<dots> = map (\<lambda>r. skip_values (?arts ! r)) [0..<length ?arts]"
    unfolding deref_def
    by (rule map_filter_Some)
       (simp add: fold_modify_idem [of skip_values, OF skip_values_idem])
  also have "\<dots> = map skip_values (map (\<lambda>r. ?arts ! r) [0..<length ?arts])"
    by simp
  also have "\<dots> = map skip_values ?arts"
    by (simp only: map_nth)
  finally show ?thesis .
qed

lemma collect_news_key:
  assumes "gemini_api_key b \<noteq> None" and "gemini_api_key b \<noteq> Some ''''"
  shows "fst (collect_news fetches ai finished b) =
           map (\<lambda>j. analyze_one (ai j) (concat (map fetch_articles fetches) ! j))
             [0..<length (concat (map fetch_articles fetches))]"
proof -
  let ?arts = "concat (map fetch_articles fetches)"
  let ?h = "\<lambda>r. if r < length ?arts then Some (?arts ! r) else None"
  let ?res = "analyze_each ai 0 [0..<length ?arts] [] ?h"
  have "fst (collect_news fetches ai finished b) = deref (snd ?res) (fst ?res)"
    using assms
    by (auto simp add: collect_news_def alloc_def analyze_articles_with_ai_def Let_def split_beta)
  also have "\<dots> = deref (snd ?res) [0..<length ?arts]"
    by (simp add: fst_analyze_each)
  also have "\<dots> = map (\<lambda>j. analyze_one (ai j) (?arts ! j)) [0..<length ?arts]"
    unfolding deref_def
  proof (rule map_filter_Some)
    fix r assume "r \<in> set [0..<length ?arts]"
    then have r: "r < length ?arts" by simp
    then have "snd ?res ([0..<length ?arts] ! r) =
                 map_option (analyze_one (ai (0 + r))) (?h ([0..<length ?arts] ! r))"
      by (intro analyze_each_nth) simp_all
    then show "snd ?res r = Some (analyze_one (ai r) (?arts ! r))"
      using r by simp
  qed
  finally show ?thesis .
qed

lemma snd_collect_news:
  "snd (collect_news fetches ai finished b) =
     b\<lparr>articles_cache := fst (collect_news fetches ai finished b), last_update := Some finished\<rparr>"
  by (simp add: collect_news_def Let_def split_beta)

lemma new_bot_collects:
  "fst (collect_news [sample_tg_feed] (\<lambda>k. AiRaises) 0 new_bot) = [skip_values fresh_article]"
  using collect_news_no_key [of new_bot "[sample_tg_feed]" "\<lambda>k. AiRaises" 0]
  by (simp add: new_bot_def sample_tg_feed_def fresh_article_def)

section \<open>The stored category\<close>

text \<open>
  C7, as the code has it. In the agent, the category stored on an article that the
  answer covers is the string the scoring service returned for its position, and
  \<open>Other\<close> when the element has none: it is checked against no set, so it is a
  member of the closed set only when the service's string is. In the bot, enrichment
  without an API key stores \<open>General\<close> on every article.
\<close>

theorem stored_category_is_unchecked:
  "(analyze_batches gemini (batch_starts (length arts)) arts = Inr arts' \<and>
    idx < length arts \<and>
    analyze_with_gemini (gemini (idx div batch_size)) = Some items \<and>
    idx mod batch_size < length items \<longrightarrow>
      category (arts' ! idx) =
        Some (case item_category (items ! (idx mod batch_size)) of
                Some c \<Rightarrow> c | None \<Rightarrow> ''Other'')) \<and>
   (gemini_api_key b = None \<or> gemini_api_key b = Some '''' \<longrightarrow>
      (\<forall>a \<in> set (fst (collect_news fetches ai finished b)). tg_category a = Some ''General''))"
proof (intro conjI impI)
  assume "analyze_batches gemini (batch_starts (length arts)) arts = Inr arts' \<and>
    idx < length arts \<and>
    analyze_with_gemini (gemini (idx div batch_size)) = Some items \<and>
    idx mod batch_size < length items"
  then have a: "analyze_batches gemini (batch_starts (length arts)) arts = Inr arts'"
      "idx < length arts" "analyze_with_gemini (gemini (idx div batch_size)) = Some items"
      "idx mod batch_size < length items"
    by simp_all
  show "category (arts' ! idx) =
        Some (case item_category (items ! (idx mod batch_size)) of
                Some c \<Rightarrow> c | None \<Rightarrow> ''Other'')"
    using analyze_batches_nth [OF a(1,2)] a(3,4) by (simp add: update_article_def)
next
  assume "gemini_api_key b = None \<or> gemini_api_key b = Some ''''"
  then have "fst (collect_news fetches ai finished b) =
               map skip_values (concat (map fetch_articles fetches))"
    by (rule collect_news_no_key)
  then show "\<forall>a \<in> set (fst (collect_news fetches ai finished b)). tg_category a = Some ''General''"
    by (auto simp add: skip_values_def)
qed

theorem stored_category_is_unchecked_witness:
  "analyze_batches (\<lambda>k. answer_with [sample_item 150 ''AI/ML''])
     (batch_starts (length (collected_articles one_article))) (collected_articles one_article) =
     Inr [update_article (sample_item 150 ''AI/ML'') (collected_articles one_article ! 0)] \<and>
   0 < length (collected_articles one_article) \<and>
   analyze_with_gemini (answer_with [sample_item 150 ''AI/ML'']) = Some [sample_item 150 ''AI/ML''] \<and>
   category ([update_article (sample_item 150 ''AI/ML'') (collected_articles one_article ! 0)] ! 0)
     = Some ''AI/ML'' \<and>
   gemini_api_key new_bot = None \<and>
   skip_values fresh_article \<in> set (fst (collect_news [sample_tg_feed] (\<lambda>k. AiRaises) 0 new_bot)) \<and>
   tg_category (skip_values fresh_article) = Some ''General''"
  using stored_category_is_unchecked [of "\<lambda>k. answer_with [sample_item 150 ''AI/ML'']"
      "collected_articles one_article"
      "[update_article (sample_item 150 ''AI/ML'') (collected_articles one_article ! 0)]" 0
      "[sample_item 150 ''AI/ML'']" new_bot "[sample_tg_feed]" "\<lambda>k. AiRaises" 0]
    analyze_one_article_150 new_bot_collects
  by (simp add: one_article_eq answer_with_def sample_item_def batch_size_def new_bot_def)

text \<open>
  C7 as the specification states it fails: the bot's enrichment without an API key
  gives the collected article the category \<open>General\<close>, which is not in the closed
  set.
\<close>

theorem fallback_category_counterexample:
  "map tg_category (fst (collect_news [sample_tg_feed] (\<lambda>k. AiRaises) 0 new_bot)) = [Some ''General''] \<and>
   ''General'' \<notin> category_set"
  by (simp add: new_bot_collects skip_values_def category_set_def)

section \<open>telegram_bot.py: the cache\<close>

text \<open>
  Within 30 minutes of the last update a request is served from the cache, and from
  30 minutes and one second up to one day after it the request rebuilds.
\<close>

lemma timedelta_seconds_small:
  "0 \<le> d \<Longrightarrow> d < 86400 * 1000000 \<Longrightarrow> timedelta_seconds d = d div 1000000"
  by (simp add: timedelta_seconds_def)

lemma latest_news_serves_cache_within_ttl:
  assumes "articles_cache b \<noteq> []" and "last_update b = Some t"
    and "0 \<le> now - t" and "now - t \<le> 1800 * 1000000"
  shows "snd (latest_news now fetches ai finished b) = b"
proof -
  have "timedelta_seconds (now - t) = (now - t) div 1000000"
    using assms(3,4) by (intro timedelta_seconds_small) simp_all
  also have "\<dots> \<le> 1800" using assms(4) by simp
  finally have "\<not> needs_update now b"
    using assms(1,2) by (simp add: needs_update_def)
  then show ?thesis by (simp add: latest_news_def Let_def)
qed

lemma latest_news_rebuilds_within_first_day:
  assumes "last_update b = Some t"
    and "1801 * 1000000 \<le> now - t" and "now - t < 86400 * 1000000"
  shows "last_update (snd (latest_news now fetches ai finished b)) = Some finished"
proof -
  have "timedelta_seconds (now - t) = (now - t) div 1000000"
    using assms(2,3) by (intro timedelta_seconds_small) simp_all
  moreover have "1801 \<le> (now - t) div 1000000" using assms(2) by simp
  ultimately have "needs_update now b"
    using assms(1) by (simp add: needs_update_def)
  then show ?thesis by (simp add: latest_news_def Let_def snd_collect_news)
qed

text \<open>
  C8 fails on the code after one day. The test of line 174 reads
  \<^verbatim>\<open>timedelta.seconds\<close>, which leaves out whole days: 87000 seconds (one day and
  ten minutes) after the last update, well past the 30 minutes, it is 600, the request
  does not rebuild, and the digest still carries the old update time 0, whatever a
  rebuild would have fetched.
\<close>

theorem stale_cache_served_after_a_day:
  "last_update sample_bot = Some 0 \<and>
   1800 * 1000000 < (87000 * 1000000 - 0 :: int) \<and>
   needs_update (87000 * 1000000) sample_bot = False \<and>
   latest_news (87000 * 1000000) fetches ai finished sample_bot =
     (Digest [sample_tg_article ''B'' 9, sample_tg_article ''A'' 7] (Some 0), sample_bot)"
  by (simp add: latest_news_def needs_update_def timedelta_seconds_def sample_bot_def
      sort_reverse_def tg_get_relevance_score_def sample_tg_article_def)

end
